theory Spec2Isabelle
  imports Main "HOL-Library.Sublist" "HOL-Library.Multiset"
begin

section \<open>The warehouse model of \<open>warehouse_system.py\<close>\<close>

text \<open>
  Python integers are unbounded, so every number of the program is an \<open>int\<close> (list
  positions that only count upwards from \<open>0\<close> are \<open>nat\<close>). Objects are records, an
  exception is a value of \<open>error\<close>, and every method takes the controller's state and
  returns the new one. The SQLite database and the console are outside the program: what
  the program sends to them is kept as two traces in the state, and a database call is
  taken to succeed.
\<close>

subsection \<open>Models: \<open>StorageBin\<close> and \<open>Package\<close>\<close>

datatype error = ValueError string | IndexError

record storage_bin =
  bin_id :: int
  capacity :: int
  location_code :: string
  used_space :: int

record package =
  tracking_id :: string
  size_pkg :: int
  destination :: string

text \<open>\<open>StorageBin.__init__\<close>: a new bin is empty.\<close>

definition StorageBin :: "int \<Rightarrow> int \<Rightarrow> string \<Rightarrow> storage_bin" where
  "StorageBin i c l = \<lparr>bin_id = i, capacity = c, location_code = l, used_space = 0\<rparr>"

definition Package :: "string \<Rightarrow> int \<Rightarrow> string \<Rightarrow> package" where
  "Package t n d = \<lparr>tracking_id = t, size_pkg = n, destination = d\<rparr>"

text \<open>
  \<open>occupy_space\<close> mutates the bin or raises. The result is the exception raised, if any,
  with the bin as the call leaves it.
\<close>

definition occupy_space :: "storage_bin \<Rightarrow> int \<Rightarrow> error option \<times> storage_bin" where
  "occupy_space self amount =
     (if used_space self + amount > capacity self
      then (Some (ValueError ''Bin Full''), self)
      else (None, self\<lparr>used_space := used_space self + amount\<rparr>))"

definition available_space :: "storage_bin \<Rightarrow> int" where
  "available_space self = capacity self - used_space self"

text \<open>\<open>StorageBin.__lt__\<close>, the only comparison \<open>list.sort\<close> uses.\<close>

definition bin_lt :: "storage_bin \<Rightarrow> storage_bin \<Rightarrow> bool" where
  "bin_lt self other \<longleftrightarrow> capacity self < capacity other"

subsection \<open>Python's lists\<close>

text \<open>
  \<open>xs[i]\<close> reads position \<open>i\<close>, counts a negative \<open>i\<close> from the end, and raises
  \<open>IndexError\<close> outside the list. \<open>list_position\<close> is the position read.
\<close>

definition list_position :: "'a list \<Rightarrow> int \<Rightarrow> error + nat" where
  "list_position xs i =
     (let n = int (length xs) in
      if 0 \<le> i \<and> i < n then Inr (nat i)
      else if - n \<le> i \<and> i < 0 then Inr (nat (n + i))
      else Inl IndexError)"

text \<open>
  \<open>list.sort()\<close> is a stable sort that compares elements with \<open>__lt__\<close> alone. It is
  modelled by the stable insertion sort over \<open>bin_lt\<close>: an element goes in front of the
  first element that is not smaller than it, and the elements are inserted from the last
  to the first, so equal elements keep their order.
\<close>

fun insert_bin :: "storage_bin \<Rightarrow> storage_bin list \<Rightarrow> storage_bin list" where
  "insert_bin x [] = [x]"
| "insert_bin x (y # ys) = (if bin_lt y x then y # insert_bin x ys else x # y # ys)"

definition sort_bins :: "storage_bin list \<Rightarrow> storage_bin list" where
  "sort_bins xs = foldr insert_bin xs []"

subsection \<open>The controller\<close>

text \<open>A row of the table \<open>bins\<close>: \<open>(bin_id, capacity, current_usage, location_code)\<close>.\<close>

type_synonym row = "int \<times> int \<times> int \<times> string"

datatype db_write =
  UpdateUsage int int
| LogAction string "int option" string

datatype message =
  Processing nat
| Stored string int int
| ErrorStoring string error
| NoSuitableBin string int
| Loaded string
| UndoRemoved string
| TruckEmpty

text \<open>
  \<open>conveyor\<close> is the FIFO queue, its head the next package \<open>get()\<close> returns;
  \<open>truck_stack\<close> has its top at the end, as \<open>append\<close> and \<open>pop\<close> use it.
\<close>

record warehouse =
  bins :: "storage_bin list"
  conveyor :: "package list"
  truck_stack :: "package list"
  db :: "db_write list"
  console :: "message list"

definition print :: "message \<Rightarrow> warehouse \<Rightarrow> warehouse" where
  "print m self = self\<lparr>console := console self @ [m]\<rparr>"

definition update_bin_db :: "storage_bin \<Rightarrow> warehouse \<Rightarrow> warehouse" where
  "update_bin_db bin_obj self =
     self\<lparr>db := db self @ [UpdateUsage (used_space bin_obj) (bin_id bin_obj)]\<rparr>"

definition log_action :: "string \<Rightarrow> int option \<Rightarrow> string \<Rightarrow> warehouse \<Rightarrow> warehouse" where
  "log_action t b status self = self\<lparr>db := db self @ [LogAction t b status]\<rparr>"

text \<open>\<open>load_inventory\<close>, given the rows that \<open>fetchall()\<close> returned, in their order.\<close>

definition bin_of_row :: "row \<Rightarrow> storage_bin" where
  "bin_of_row r =
     (case r of (r0, r1, r2, r3) \<Rightarrow> (StorageBin r0 r1 r3)\<lparr>used_space := r2\<rparr>)"

definition load_inventory :: "row list \<Rightarrow> warehouse \<Rightarrow> warehouse" where
  "load_inventory rows self = self\<lparr>bins := sort_bins (map bin_of_row rows)\<rparr>"

definition add_to_conveyor :: "package \<Rightarrow> warehouse \<Rightarrow> warehouse" where
  "add_to_conveyor pkg self = self\<lparr>conveyor := conveyor self @ [pkg]\<rparr>"

text \<open>
  The loop of \<open>find_bin_binary_search\<close>. \<open>best_fit\<close> refers to an object of
  \<open>self.bins\<close>; the model keeps the position of that object in the list.
\<close>

function find_loop ::
  "storage_bin list \<Rightarrow> package \<Rightarrow> int \<Rightarrow> int \<Rightarrow> nat option \<Rightarrow> error + nat option" where
  "find_loop bs pkg low high best_fit =
     (if low \<le> high then
        (let mid = (low + high) div 2 in
         case list_position bs mid of
           Inl e \<Rightarrow> Inl e
         | Inr k \<Rightarrow>
             (let curr = bs ! k in
              if capacity curr \<ge> size_pkg pkg \<and> available_space curr \<ge> size_pkg pkg
              then find_loop bs pkg low (mid - 1) (Some k)
              else find_loop bs pkg (mid + 1) high best_fit))
      else Inr best_fit)"
  by pat_completeness auto
termination
  by (relation "measure (\<lambda>(bs, pkg, low, high, best_fit). nat (high - low + 1))") auto

definition find_bin_binary_search :: "warehouse \<Rightarrow> package \<Rightarrow> error + nat option" where
  "find_bin_binary_search self pkg =
     find_loop (bins self) pkg 0 (int (length (bins self)) - 1) None"

text \<open>
  The body of the loop of \<open>run_conveyor\<close>, after \<open>get()\<close> took \<open>pkg\<close> from the queue.
  \<open>try_store\<close> is the \<open>try\<close> block for the target bin at position \<open>k\<close>: an exception
  of \<open>occupy_space\<close> is caught and printed. An exception of \<open>find_bin_binary_search\<close> is
  outside the \<open>try\<close> and leaves the loop.
\<close>

definition try_store :: "nat \<Rightarrow> package \<Rightarrow> warehouse \<Rightarrow> warehouse" where
  "try_store k pkg self =
     (case occupy_space (bins self ! k) (size_pkg pkg) of
        (Some e, b) \<Rightarrow>
          print (ErrorStoring (tracking_id pkg) e) (self\<lparr>bins := (bins self)[k := b]\<rparr>)
      | (None, b) \<Rightarrow>
          print (Stored (tracking_id pkg) (size_pkg pkg) (bin_id b))
            (log_action (tracking_id pkg) (Some (bin_id b)) ''STORED''
              (update_bin_db b (self\<lparr>bins := (bins self)[k := b]\<rparr>))))"

definition store_package :: "package \<Rightarrow> warehouse \<Rightarrow> error option \<times> warehouse" where
  "store_package pkg self =
     (case find_bin_binary_search self pkg of
        Inl e \<Rightarrow> (Some e, self)
      | Inr None \<Rightarrow> (None, print (NoSuitableBin (tracking_id pkg) (size_pkg pkg)) self)
      | Inr (Some k) \<Rightarrow> (None, try_store k pkg self))"

function conveyor_loop :: "warehouse \<Rightarrow> error option \<times> warehouse" where
  "conveyor_loop self =
     (case conveyor self of
        [] \<Rightarrow> (None, self)
      | pkg # rest \<Rightarrow>
          (case store_package pkg (self\<lparr>conveyor := rest\<rparr>) of
             (Some e, self') \<Rightarrow> (Some e, self')
           | (None, self') \<Rightarrow> conveyor_loop self'))"
  by pat_completeness auto
termination
  by (relation "measure (\<lambda>self. length (conveyor self))")
    (auto simp: store_package_def try_store_def print_def log_action_def update_bin_db_def
       split: sum.splits option.splits prod.splits)

declare find_loop.simps [simp del] conveyor_loop.simps [simp del]

definition run_conveyor :: "warehouse \<Rightarrow> error option \<times> warehouse" where
  "run_conveyor self = conveyor_loop (print (Processing (length (conveyor self))) self)"

definition load_truck :: "package \<Rightarrow> warehouse \<Rightarrow> warehouse" where
  "load_truck pkg self =
     print (Loaded (tracking_id pkg))
       (log_action (tracking_id pkg) None ''LOADED_ON_TRUCK''
         (self\<lparr>truck_stack := truck_stack self @ [pkg]\<rparr>))"

definition undo_last_load :: "warehouse \<Rightarrow> package option \<times> warehouse" where
  "undo_last_load self =
     (if truck_stack self \<noteq> [] then
        (let pkg = last (truck_stack self) in
         (Some pkg,
          print (UndoRemoved (tracking_id pkg))
            (log_action (tracking_id pkg) None ''REMOVED_FROM_TRUCK''
              (self\<lparr>truck_stack := butlast (truck_stack self)\<rparr>))))
      else (None, print TruckEmpty self))"


text \<open>
  \<open>optimize_truck_space\<close>. The closure \<open>solve\<close> shares three mutable variables with its
  caller: the list \<open>current_combo\<close> that it extends and pops, and the nonlocal
  \<open>best_combo\<close> and \<open>max_filled\<close>. They are the record \<open>search\<close>, passed in and
  returned. \<open>packages[idx]\<close> past the end and \<open>pop()\<close> on an empty list raise
  \<open>IndexError\<close>.
\<close>

record search =
  current_combo :: "package list"
  best_combo :: "package list"
  max_filled :: int

function (domintros) solve ::
  "package list \<Rightarrow> int \<Rightarrow> nat \<Rightarrow> int \<Rightarrow> search \<Rightarrow> error + search" where
  "solve packages max_cap idx current_size s =
     (let s1 = (if current_size > max_filled s
                then s\<lparr>max_filled := current_size, best_combo := current_combo s\<rparr>
                else s) in
      if idx = length packages then Inr s1
      else if length packages < idx then Inl IndexError
      else
        (let pkg = packages ! idx in
         case
           (if current_size + size_pkg pkg \<le> max_cap then
              (case solve packages max_cap (idx + 1) (current_size + size_pkg pkg)
                      (s1\<lparr>current_combo := current_combo s1 @ [pkg]\<rparr>) of
                 Inl e \<Rightarrow> Inl e
               | Inr s2 \<Rightarrow>
                   if current_combo s2 = [] then Inl IndexError
                   else Inr (s2\<lparr>current_combo := butlast (current_combo s2)\<rparr>))
            else Inr s1) of
           Inl e \<Rightarrow> Inl e
         | Inr s3 \<Rightarrow> solve packages max_cap (idx + 1) current_size s3))"
  by pat_completeness auto
termination
  by (relation "measure (\<lambda>(packages, max_cap, idx, current_size, s). length packages - idx)")
    auto

declare solve.simps [simp del]

definition optimize_truck_space :: "package list \<Rightarrow> int \<Rightarrow> error + package list" where
  "optimize_truck_space packages max_cap =
     (case solve packages max_cap 0 0 \<lparr>current_combo = [], best_combo = [], max_filled = 0\<rparr> of
        Inl e \<Rightarrow> Inl e
      | Inr s \<Rightarrow> Inr (best_combo s))"

text \<open>\<open>WarehouseController.__init__\<close>: the state of a new controller.\<close>

definition WarehouseController :: warehouse where
  "WarehouseController = \<lparr>bins = [], conveyor = [], truck_stack = [], db = [], console = []\<rparr>"

text \<open>The rows \<open>seed_database\<close> inserts, which \<open>load_inventory\<close> then reads.\<close>

definition seed_rows :: "row list" where
  "seed_rows = [(1, 50, 0, ''A1''), (2, 100, 0, ''A2''), (3, 150, 0, ''B1''),
                (4, 200, 0, ''B2''), (5, 500, 0, ''C1'')]"

subsection \<open>The operations of the system, as a caller runs them\<close>

text \<open>
  A caller holds the controller and references to its bins. \<open>OccupySpace k amount\<close> is a
  direct call of \<open>occupy_space\<close> on the bin at position \<open>k\<close> of \<open>self.bins\<close> (no call
  when there is no such bin); an exception that reaches the caller leaves the state as
  the call left it.
\<close>

datatype operation =
  LoadInventory "row list"
| AddToConveyor package
| RunConveyor
| LoadTruck package
| UndoLastLoad
| OptimizeTruckSpace "package list" int
| OccupySpace nat int

fun perform :: "operation \<Rightarrow> warehouse \<Rightarrow> warehouse" where
  "perform (LoadInventory rows) self = load_inventory rows self"
| "perform (AddToConveyor pkg) self = add_to_conveyor pkg self"
| "perform RunConveyor self = snd (run_conveyor self)"
| "perform (LoadTruck pkg) self = load_truck pkg self"
| "perform UndoLastLoad self = snd (undo_last_load self)"
| "perform (OptimizeTruckSpace packages max_cap) self = self"
| "perform (OccupySpace k amount) self =
     (if k < length (bins self)
      then self\<lparr>bins := (bins self)[k := snd (occupy_space (bins self ! k) amount)]\<rparr>
      else self)"

subsection \<open>Notions of the specification\<close>

text \<open>A bin qualifies for a package: the test of \<open>find_bin_binary_search\<close>.\<close>

definition qualifies :: "storage_bin \<Rightarrow> package \<Rightarrow> bool" where
  "qualifies b pkg \<longleftrightarrow> capacity b \<ge> size_pkg pkg \<and> available_space b \<ge> size_pkg pkg"


definition total_size :: "package list \<Rightarrow> int" where
  "total_size ps = sum_list (map size_pkg ps)"

text \<open>The usage invariant, and the rows a load may bring in under it.\<close>

definition within_capacity :: "storage_bin \<Rightarrow> bool" where
  "within_capacity b \<longleftrightarrow> used_space b \<le> capacity b"

fun loads_within_capacity :: "operation \<Rightarrow> bool" where
  "loads_within_capacity (LoadInventory rows) =
     list_all (\<lambda>r. 0 \<le> used_space (bin_of_row r) \<and> within_capacity (bin_of_row r)) rows"
| "loads_within_capacity _ = True"

text \<open>
  What \<open>solve\<close> does on entry: a running total above \<open>max_filled\<close> is recorded with a copy
  of the current combination.
\<close>

definition record_best :: "int \<Rightarrow> search \<Rightarrow> search" where
  "record_best current_size s =
     (if current_size > max_filled s
      then s\<lparr>max_filled := current_size, best_combo := current_combo s\<rparr> else s)"





section \<open>The bin registry: \<open>load_inventory\<close>\<close>

lemma insert_bin_insort: "insert_bin x ys = insort_key capacity x ys"
  by (induction ys) (auto simp: bin_lt_def)

lemma sort_bins_sort_key: "sort_bins xs = sort_key capacity xs"
proof -
  have "insert_bin = insort_key capacity"
    by (intro ext) (rule insert_bin_insort)
  then show ?thesis by (simp add: sort_bins_def sort_key_def)
qed


lemma capacity_sorted_insert_bin:
  "sorted (map capacity ys) \<Longrightarrow> sorted (map capacity (insert_bin x ys))"
  by (simp add: insert_bin_insort sorted_insort_key)






section \<open>\<open>occupy_space\<close>\<close>

text \<open>
  Claim C5. \<open>occupy_space\<close> raises \<open>ValueError("Bin Full")\<close>, the capacity-exceeded error,
  if and only if \<open>used_space + amount > capacity\<close>. When it does not raise, the bin's
  \<open>used_space\<close> has grown by exactly \<open>amount\<close> and no other field changed; when it raises,
  the bin is as it was.
\<close>

theorem occupy_space_capacity_exceeded:
  "(fst (occupy_space b amount) = Some (ValueError ''Bin Full'')
      \<longleftrightarrow> used_space b + amount > capacity b) \<and>
   (fst (occupy_space b amount) = None \<longleftrightarrow> \<not> used_space b + amount > capacity b) \<and>
   (fst (occupy_space b amount) = None \<longrightarrow>
      snd (occupy_space b amount) = b\<lparr>used_space := used_space b + amount\<rparr>) \<and>
   (fst (occupy_space b amount) \<noteq> None \<longrightarrow> snd (occupy_space b amount) = b)"
  by (simp add: occupy_space_def)

text \<open>The witness of C5: 45 into an empty bin of capacity 50, then 30 more.\<close>

theorem occupy_space_capacity_exceeded_witness:
  "occupy_space (StorageBin 1 50 ''A1'') 45 = (None, (StorageBin 1 50 ''A1'')\<lparr>used_space := 45\<rparr>) \<and>
   occupy_space ((StorageBin 1 50 ''A1'')\<lparr>used_space := 45\<rparr>) 30
     = (Some (ValueError ''Bin Full''), (StorageBin 1 50 ''A1'')\<lparr>used_space := 45\<rparr>)"
proof -
  let ?b = "StorageBin 1 50 ''A1''"
  have 1: "fst (occupy_space ?b 45) = None"
    by (simp add: occupy_space_def StorageBin_def)
  have 2: "fst (occupy_space (?b\<lparr>used_space := 45\<rparr>) 30) = Some (ValueError ''Bin Full'')"
    by (simp add: occupy_space_def StorageBin_def)
  from occupy_space_capacity_exceeded[of ?b 45] 1
  have "snd (occupy_space ?b 45) = ?b\<lparr>used_space := used_space ?b + 45\<rparr>" by blast
  moreover from occupy_space_capacity_exceeded[of "?b\<lparr>used_space := 45\<rparr>" 30] 2
  have "snd (occupy_space (?b\<lparr>used_space := 45\<rparr>) 30) = ?b\<lparr>used_space := 45\<rparr>" by simp
  ultimately show ?thesis using 1 2
    by (simp add: prod_eq_iff StorageBin_def)
qed



section \<open>The truck stack\<close>

lemma truck_stack_print [simp]: "truck_stack (print m s) = truck_stack s"
  by (simp add: print_def)

lemma truck_stack_log_action [simp]: "truck_stack (log_action t b st s) = truck_stack s"
  by (simp add: log_action_def)

lemma truck_stack_load_truck: "truck_stack (load_truck x s) = truck_stack s @ [x]"
  by (simp add: load_truck_def)

lemma undo_last_load_snoc:
  "truck_stack s = xs @ [x] \<Longrightarrow>
   fst (undo_last_load s) = Some x \<and> truck_stack (snd (undo_last_load s)) = xs"
  by (simp add: undo_last_load_def Let_def)

text \<open>
  Claim C7. For every state and package \<open>x\<close>, \<open>undo_last_load\<close> right after
  \<open>load_truck x\<close> returns \<open>x\<close> and restores the stack. On an empty stack it returns
  \<open>None\<close> (the model of \<open>undo_last_load\<close> has no exception to raise) and the stack stays
  empty. After loading \<open>a\<close>, \<open>b\<close>, \<open>c\<close> on an empty stack, two undos return \<open>c\<close>, then
  \<open>b\<close>, and the stack holds \<open>[a]\<close>.
\<close>

theorem truck_stack_lifo:
  "fst (undo_last_load (load_truck x s)) = Some x \<and>
   truck_stack (snd (undo_last_load (load_truck x s))) = truck_stack s \<and>
   (truck_stack s = [] \<longrightarrow>
      fst (undo_last_load s) = None \<and> truck_stack (snd (undo_last_load s)) = []) \<and>
   (truck_stack s = [] \<longrightarrow>
      (let s3 = load_truck c (load_truck b (load_truck a s));
           r1 = undo_last_load s3;
           r2 = undo_last_load (snd r1)
       in fst r1 = Some c \<and> fst r2 = Some b \<and> truck_stack (snd r2) = [a]))"
proof -
  have 1: "fst (undo_last_load (load_truck x s)) = Some x \<and>
      truck_stack (snd (undo_last_load (load_truck x s))) = truck_stack s" for x s
    using undo_last_load_snoc[OF truck_stack_load_truck] by simp
  have 2: "truck_stack s = [] \<longrightarrow>
      fst (undo_last_load s) = None \<and> truck_stack (snd (undo_last_load s)) = []"
    by (simp add: undo_last_load_def)
  have 3: "fst (undo_last_load (snd (undo_last_load (load_truck c (load_truck b s))))) = Some b
      \<and> truck_stack (snd (undo_last_load (snd (undo_last_load (load_truck c (load_truck b s))))))
          = truck_stack s" for s
  proof -
    have "truck_stack (snd (undo_last_load (load_truck c (load_truck b s)))) = truck_stack s @ [b]"
      using 1[of c "load_truck b s"] by (simp add: truck_stack_load_truck)
    from undo_last_load_snoc[OF this] show ?thesis by simp
  qed
  show ?thesis
    using 1[of x s] 1[of c "load_truck b (load_truck a s)"] 2 3[of "load_truck a s"]
    by (simp add: Let_def truck_stack_load_truck)
qed

text \<open>The witness of C7: a new controller, whose stack is empty.\<close>

theorem truck_stack_lifo_witness:
  "truck_stack WarehouseController = [] \<and>
   fst (undo_last_load WarehouseController) = None \<and>
   truck_stack (snd (undo_last_load WarehouseController)) = [] \<and>
   fst (undo_last_load (load_truck (Package ''C'' 3 ''z'')
      (load_truck (Package ''B'' 2 ''y'') (load_truck (Package ''A'' 1 ''x'') WarehouseController))))
     = Some (Package ''C'' 3 ''z'')"
proof -
  have h: "truck_stack WarehouseController = []"
    by (simp add: WarehouseController_def)
  from truck_stack_lifo[of "Package ''C'' 3 ''z''" WarehouseController "Package ''C'' 3 ''z''"
      "Package ''B'' 2 ''y''" "Package ''A'' 1 ''x''"] h
  show ?thesis by (simp add: Let_def)
qed

section \<open>The best-fit search\<close>

lemma list_position_less: "list_position bs i = Inr k \<Longrightarrow> k < length bs"
  by (auto simp: list_position_def Let_def split: if_splits)

lemma list_position_in_range:
  "0 \<le> i \<Longrightarrow> i < int (length bs) \<Longrightarrow> list_position bs i = Inr (nat i)"
  by (simp add: list_position_def)

lemma find_loop_stop: "\<not> low \<le> high \<Longrightarrow> find_loop bs pkg low high best_fit = Inr best_fit"
  by (subst find_loop.simps) simp

lemma find_loop_error:
  "low \<le> high \<Longrightarrow> list_position bs ((low + high) div 2) = Inl e \<Longrightarrow>
   find_loop bs pkg low high best_fit = Inl e"
  by (subst find_loop.simps) simp

lemma find_loop_fit:
  "low \<le> high \<Longrightarrow> list_position bs ((low + high) div 2) = Inr m \<Longrightarrow>
   qualifies (bs ! m) pkg \<Longrightarrow>
   find_loop bs pkg low high best_fit = find_loop bs pkg low ((low + high) div 2 - 1) (Some m)"
  by (subst find_loop.simps) (simp add: qualifies_def Let_def)

lemma find_loop_no_fit:
  "low \<le> high \<Longrightarrow> list_position bs ((low + high) div 2) = Inr m \<Longrightarrow>
   \<not> qualifies (bs ! m) pkg \<Longrightarrow>
   find_loop bs pkg low high best_fit = find_loop bs pkg ((low + high) div 2 + 1) high best_fit"
  by (subst find_loop.simps) (auto simp: qualifies_def Let_def)

lemma find_loop_sound:
  "find_loop bs pkg low high best_fit = Inr (Some k) \<Longrightarrow>
   (\<And>j. best_fit = Some j \<Longrightarrow> j < length bs \<and> qualifies (bs ! j) pkg) \<Longrightarrow>
   k < length bs \<and> qualifies (bs ! k) pkg"
proof (induction bs pkg low high best_fit rule: find_loop.induct)
  case (1 bs pkg low high best_fit)
  show ?case
  proof (cases "low \<le> high")
    case False
    with "1.prems" show ?thesis by (simp add: find_loop_stop)
  next
    case True
    let ?mid = "(low + high) div 2"
    from True "1.prems"(1) obtain m where m: "list_position bs ?mid = Inr m"
      by (cases "list_position bs ?mid") (simp_all add: find_loop_error)
    show ?thesis
    proof (cases "qualifies (bs ! m) pkg")
      case q: True
      then have "find_loop bs pkg low (?mid - 1) (Some m) = Inr (Some k)"
        using "1.prems"(1) by (simp add: find_loop_fit[OF True m])
      moreover have "j < length bs \<and> qualifies (bs ! j) pkg" if "Some m = Some j" for j
        using that q list_position_less[OF m] by simp
      ultimately show ?thesis
        using "1.IH"(1)[OF True refl m refl] q by (simp add: qualifies_def)
    next
      case q: False
      then have "find_loop bs pkg (?mid + 1) high best_fit = Inr (Some k)"
        using "1.prems"(1) by (simp add: find_loop_no_fit[OF True m])
      then show ?thesis
        using "1.IH"(2)[OF True refl m refl] q "1.prems"(2) by (simp add: qualifies_def)
    qed
  qed
qed

lemma find_loop_returns:
  "0 \<le> low \<Longrightarrow> high < int (length bs) \<Longrightarrow> \<exists>r. find_loop bs pkg low high best_fit = Inr r"
proof (induction bs pkg low high best_fit rule: find_loop.induct)
  case (1 bs pkg low high best_fit)
  show ?case
  proof (cases "low \<le> high")
    case False
    then show ?thesis by (simp add: find_loop_stop)
  next
    case True
    let ?mid = "(low + high) div 2"
    have mid: "low \<le> ?mid" "?mid \<le> high" using True by auto
    then have m: "list_position bs ?mid = Inr (nat ?mid)"
      using "1.prems" by (intro list_position_in_range) auto
    show ?thesis
    proof (cases "qualifies (bs ! nat ?mid) pkg")
      case q: True
      have "\<exists>r. find_loop bs pkg low (?mid - 1) (Some (nat ?mid)) = Inr r"
        using "1.IH"(1)[OF True refl m refl] q "1.prems" mid by (simp add: qualifies_def)
      then show ?thesis
        by (simp add: find_loop_fit[OF True m q])
    next
      case q: False
      have "\<exists>r. find_loop bs pkg (?mid + 1) high best_fit = Inr r"
        using "1.IH"(2)[OF True refl m refl] q "1.prems" mid by (simp add: qualifies_def)
      then show ?thesis
        by (simp add: find_loop_no_fit[OF True m q])
    qed
  qed
qed

lemma find_bin_binary_search_returns: "\<exists>r. find_bin_binary_search self pkg = Inr r"
  unfolding find_bin_binary_search_def by (rule find_loop_returns) simp_all

lemma find_bin_binary_search_qualifies:
  "find_bin_binary_search self pkg = Inr (Some k) \<Longrightarrow>
   k < length (bins self) \<and> qualifies (bins self ! k) pkg"
  unfolding find_bin_binary_search_def by (erule find_loop_sound) simp




text \<open>
  Claim C3. When \<open>find_bin_binary_search\<close> returns a bin, the bin is one of the registry
  and satisfies \<open>capacity \<ge> size\<close> and \<open>available_space \<ge> size\<close>. With two bins of
  capacity 100, one with 90 used and one with 0 used, in either order, a request of size
  50 returns the bin with 0 used.
\<close>

theorem find_best_fit_sound:
  "(find_bin_binary_search self pkg = Inr (Some k) \<longrightarrow>
      k < length (bins self) \<and> capacity (bins self ! k) \<ge> size_pkg pkg \<and>
      available_space (bins self ! k) \<ge> size_pkg pkg) \<and>
   (capacity used90 = 100 \<and> used_space used90 = 90 \<and> capacity used0 = 100 \<and>
    used_space used0 = 0 \<and> size_pkg request = 50 \<longrightarrow>
      find_bin_binary_search (registry\<lparr>bins := [used90, used0]\<rparr>) request = Inr (Some 1) \<and>
      find_bin_binary_search (registry\<lparr>bins := [used0, used90]\<rparr>) request = Inr (Some 0))"
proof -
  have "find_bin_binary_search self pkg = Inr (Some k) \<longrightarrow>
      k < length (bins self) \<and> capacity (bins self ! k) \<ge> size_pkg pkg \<and>
      available_space (bins self ! k) \<ge> size_pkg pkg"
    using find_bin_binary_search_qualifies[of self pkg k] by (simp add: qualifies_def)
  moreover have "capacity used90 = 100 \<and> used_space used90 = 90 \<and> capacity used0 = 100 \<and>
    used_space used0 = 0 \<and> size_pkg request = 50 \<longrightarrow>
      find_bin_binary_search (registry\<lparr>bins := [used90, used0]\<rparr>) request = Inr (Some 1) \<and>
      find_bin_binary_search (registry\<lparr>bins := [used0, used90]\<rparr>) request = Inr (Some 0)"
    by (simp add: find_bin_binary_search_def find_loop.simps list_position_def
        available_space_def)
  ultimately show ?thesis by blast
qed

text \<open>The witness of C3: the seeded registry with a package of size 45, and scenario D.\<close>

theorem find_best_fit_sound_witness:
  "find_bin_binary_search (load_inventory seed_rows WarehouseController) (Package ''PKG_SMALL'' 45 ''NY'')
     = Inr (Some 0) \<and>
   capacity (bins (load_inventory seed_rows WarehouseController) ! 0) \<ge> 45 \<and>
   available_space (bins (load_inventory seed_rows WarehouseController) ! 0) \<ge> 45 \<and>
   find_bin_binary_search
     (WarehouseController\<lparr>bins := [(StorageBin 1 100 ''A1'')\<lparr>used_space := 90\<rparr>, StorageBin 2 100 ''A2'']\<rparr>)
     (Package ''P'' 50 ''NY'') = Inr (Some 1)"
proof -
  let ?s = "load_inventory seed_rows WarehouseController"
  let ?p = "Package ''PKG_SMALL'' 45 ''NY''"
  have f: "find_bin_binary_search ?s ?p = Inr (Some 0)"
    by (simp add: find_bin_binary_search_def find_loop.simps list_position_def
        available_space_def load_inventory_def sort_bins_def seed_rows_def bin_of_row_def
        StorageBin_def bin_lt_def Package_def WarehouseController_def)
  have d: "capacity ((StorageBin 1 100 ''A1'')\<lparr>used_space := 90\<rparr>) = 100 \<and>
      used_space ((StorageBin 1 100 ''A1'')\<lparr>used_space := 90\<rparr>) = 90 \<and>
      capacity (StorageBin 2 100 ''A2'') = 100 \<and> used_space (StorageBin 2 100 ''A2'') = 0 \<and>
      size_pkg (Package ''P'' 50 ''NY'') = 50"
    by (simp add: StorageBin_def Package_def)
  from find_best_fit_sound[of ?s ?p 0 "(StorageBin 1 100 ''A1'')\<lparr>used_space := 90\<rparr>"
      "StorageBin 2 100 ''A2''" "Package ''P'' 50 ''NY''" WarehouseController] f d
  show ?thesis by (simp add: Package_def)
qed

text \<open>
  Claim C9. From empty bins of capacities 50, 100, 150, 200, 500, \<open>run_conveyor\<close> on
  packages of sizes 45, 120, 30 stores the first in the bin of capacity 50, the second in
  the bin of capacity 150 and the third in the bin of capacity 100; the bin of capacity 50
  then has 5 available. The bin ids, locations, tracking ids and destinations are
  arbitrary.
\<close>

theorem scenario_A_allocation:
  "run_conveyor
     (WarehouseController
        \<lparr>bins := [StorageBin i1 50 l1, StorageBin i2 100 l2, StorageBin i3 150 l3,
                  StorageBin i4 200 l4, StorageBin i5 500 l5],
         conveyor := [Package t1 45 d1, Package t2 120 d2, Package t3 30 d3]\<rparr>) =
   (None,
    \<lparr>bins = [(StorageBin i1 50 l1)\<lparr>used_space := 45\<rparr>, (StorageBin i2 100 l2)\<lparr>used_space := 30\<rparr>,
             (StorageBin i3 150 l3)\<lparr>used_space := 120\<rparr>, StorageBin i4 200 l4,
             StorageBin i5 500 l5],
     conveyor = [], truck_stack = [],
     db = [UpdateUsage 45 i1, LogAction t1 (Some i1) ''STORED'',
           UpdateUsage 120 i3, LogAction t2 (Some i3) ''STORED'',
           UpdateUsage 30 i2, LogAction t3 (Some i2) ''STORED''],
     console = [Processing 3, Stored t1 45 i1, Stored t2 120 i3, Stored t3 30 i2]\<rparr>) \<and>
   available_space ((StorageBin i1 50 l1)\<lparr>used_space := 45\<rparr>) = 5"
  by (simp add: run_conveyor_def conveyor_loop.simps store_package_def try_store_def
      find_bin_binary_search_def find_loop.simps list_position_def available_space_def
      occupy_space_def print_def log_action_def update_bin_db_def StorageBin_def Package_def
      WarehouseController_def)

text \<open>
  Claim C1 fails on the code. After \<open>run_conveyor\<close> has stored packages of sizes 150, 200
  and 500 in the seeded registry, the bins of capacity 50 and 100 are empty, yet a package
  of size 40 gets no bin: the search looks at the full bins of capacity 150, 200 and 500
  only. After the single package of size 150, the package of size 40 gets the bin of
  capacity 200, not the qualifying bin of capacity 50.
\<close>

theorem find_bin_binary_search_skips_free_bins:
  "(let self = snd (run_conveyor ((load_inventory seed_rows WarehouseController)
                  \<lparr>conveyor := [Package ''P1'' 150 ''NY'', Package ''P2'' 200 ''CA'',
                                Package ''P3'' 500 ''TX'']\<rparr>));
        pkg = Package ''P4'' 40 ''TX''
    in map capacity (bins self) = [50, 100, 150, 200, 500] \<and>
       map used_space (bins self) = [0, 0, 150, 200, 500] \<and>
       qualifies (bins self ! 0) pkg \<and>
       find_bin_binary_search self pkg = Inr None) \<and>
   (let self = snd (run_conveyor ((load_inventory seed_rows WarehouseController)
                  \<lparr>conveyor := [Package ''P1'' 150 ''NY'']\<rparr>));
        pkg = Package ''P4'' 40 ''TX''
    in map capacity (bins self) = [50, 100, 150, 200, 500] \<and>
       map used_space (bins self) = [0, 0, 150, 0, 0] \<and>
       qualifies (bins self ! 0) pkg \<and>
       find_bin_binary_search self pkg = Inr (Some 3))"
  by (simp add: run_conveyor_def conveyor_loop.simps store_package_def try_store_def
      find_bin_binary_search_def find_loop.simps list_position_def available_space_def
      occupy_space_def print_def log_action_def update_bin_db_def StorageBin_def Package_def
      WarehouseController_def load_inventory_def sort_bins_def seed_rows_def bin_of_row_def
      bin_lt_def qualifies_def)




section \<open>The conveyor\<close>

lemma find_bin_binary_search_conveyor [simp]:
  "find_bin_binary_search (s\<lparr>conveyor := q\<rparr>) pkg = find_bin_binary_search s pkg"
  by (simp add: find_bin_binary_search_def)

lemma try_store_conveyor:
  "try_store k pkg (s\<lparr>conveyor := q\<rparr>) = (try_store k pkg s)\<lparr>conveyor := q\<rparr>"
  by (simp add: try_store_def print_def log_action_def update_bin_db_def
      split: option.split prod.split)

lemma store_package_conveyor:
  "store_package pkg (s\<lparr>conveyor := q\<rparr>) =
   (fst (store_package pkg s), (snd (store_package pkg s))\<lparr>conveyor := q\<rparr>)"
  by (simp add: store_package_def try_store_conveyor print_def
      split: sum.split option.split)

lemma store_package_no_exception: "fst (store_package pkg s) = None"
  using find_bin_binary_search_returns[of s pkg]
  by (auto simp: store_package_def split: option.split prod.split)

lemma conveyor_store_package [simp]: "conveyor (snd (store_package pkg s)) = conveyor s"
  by (simp add: store_package_def try_store_def print_def log_action_def update_bin_db_def
      split: sum.split option.split prod.split)

lemma fold_store_package_conveyor:
  "fold (\<lambda>pkg s. snd (store_package pkg s)) ps (s\<lparr>conveyor := q\<rparr>) =
   (fold (\<lambda>pkg s. snd (store_package pkg s)) ps s)\<lparr>conveyor := q\<rparr>"
  by (induction ps arbitrary: s) (simp_all add: store_package_conveyor)

lemma conveyor_fold_store_package [simp]:
  "conveyor (fold (\<lambda>pkg s. snd (store_package pkg s)) ps s) = conveyor s"
  by (induction ps arbitrary: s) simp_all

lemma conveyor_loop_fold:
  "conveyor s = ps \<Longrightarrow>
   conveyor_loop s = (None, (fold (\<lambda>pkg s. snd (store_package pkg s)) ps s)\<lparr>conveyor := []\<rparr>)"
proof (induction ps arbitrary: s)
  case Nil
  then show ?case by (subst conveyor_loop.simps) simp
next
  case (Cons pkg rest)
  let ?s' = "(snd (store_package pkg s))\<lparr>conveyor := rest\<rparr>"
  have "conveyor_loop s = conveyor_loop ?s'"
    using Cons.prems store_package_no_exception[of pkg s]
    by (subst conveyor_loop.simps) (simp add: store_package_conveyor)
  also have "\<dots> = (None, (fold (\<lambda>pkg s. snd (store_package pkg s)) rest ?s')\<lparr>conveyor := []\<rparr>)"
    by (rule Cons.IH) simp
  finally show ?case by (simp add: fold_store_package_conveyor)
qed

lemma run_conveyor_fold:
  "run_conveyor self =
   (None, (fold (\<lambda>pkg s. snd (store_package pkg s)) (conveyor self)
             (print (Processing (length (conveyor self))) self))\<lparr>conveyor := []\<rparr>)"
  unfolding run_conveyor_def by (rule conveyor_loop_fold) (simp add: print_def)



lemma try_store_stored:
  "fst (occupy_space (bins s ! k) (size_pkg pkg)) = None \<Longrightarrow>
   try_store k pkg s =
     print (Stored (tracking_id pkg) (size_pkg pkg) (bin_id (bins s ! k)))
       (log_action (tracking_id pkg) (Some (bin_id (bins s ! k))) ''STORED''
         (update_bin_db ((bins s ! k)\<lparr>used_space := used_space (bins s ! k) + size_pkg pkg\<rparr>)
           (s\<lparr>bins := (bins s)[k := (bins s ! k)
                  \<lparr>used_space := used_space (bins s ! k) + size_pkg pkg\<rparr>]\<rparr>)))"
  by (auto simp: try_store_def occupy_space_def split: if_splits)


lemma occupy_space_qualifies:
  "qualifies b pkg \<Longrightarrow> fst (occupy_space b (size_pkg pkg)) = None"
  by (simp add: qualifies_def occupy_space_def available_space_def)



section \<open>The usage invariant\<close>

lemma within_capacity_occupy_space: 
  "within_capacity b \<Longrightarrow> within_capacity (snd (occupy_space b amount))"
  by (simp add: occupy_space_def within_capacity_def)

lemma list_all_update:
  "list_all P xs \<Longrightarrow> P v \<Longrightarrow> list_all P (xs[k := v])"
  using set_update_subset_insert[of xs k v] by (auto simp: list_all_iff)

lemma bins_print [simp]: "bins (print m s) = bins s"
  by (simp add: print_def)

lemma bins_store_package_eq:
  "find_bin_binary_search s pkg = Inr (Some k) \<Longrightarrow>
   bins (snd (store_package pkg s)) = (bins s)[k := snd (occupy_space (bins s ! k) (size_pkg pkg))]"
  by (simp add: store_package_def try_store_def print_def log_action_def update_bin_db_def
      split: prod.split option.split)

lemma bins_store_package:
  assumes a: "list_all within_capacity (bins s)"
  shows "list_all within_capacity (bins (snd (store_package pkg s)))"
proof (cases "find_bin_binary_search s pkg")
  case (Inl e)
  with a show ?thesis by (simp add: store_package_def)
next
  case (Inr r)
  show ?thesis
  proof (cases r)
    case None
    with Inr a show ?thesis by (simp add: store_package_def)
  next
    case (Some k)
    with Inr have f: "find_bin_binary_search s pkg = Inr (Some k)" by simp
    then have "k < length (bins s)"
      using find_bin_binary_search_qualifies by blast
    with a have "within_capacity (bins s ! k)" by (simp add: list_all_length)
    then have "list_all within_capacity
        ((bins s)[k := snd (occupy_space (bins s ! k) (size_pkg pkg))])"
      by (intro list_all_update a within_capacity_occupy_space)
    then show ?thesis by (simp add: bins_store_package_eq[OF f])
  qed
qed

lemma bins_fold_store_package:
  "list_all within_capacity (bins s) \<Longrightarrow>
   list_all within_capacity (bins (fold (\<lambda>pkg s. snd (store_package pkg s)) ps s))"
  by (induction ps arbitrary: s) (simp_all add: bins_store_package)

lemma bins_run_conveyor:
  "list_all within_capacity (bins s) \<Longrightarrow> list_all within_capacity (bins (snd (run_conveyor s)))"
  using bins_fold_store_package[of "print (Processing (length (conveyor s))) s" "conveyor s"]
  by (simp add: run_conveyor_fold)

lemma set_sort_bins [simp]: "set (sort_bins xs) = set xs"
  by (simp add: sort_bins_sort_key)

lemma bins_perform:
  assumes a: "list_all within_capacity (bins s)" and l: "loads_within_capacity op"
  shows "list_all within_capacity (bins (perform op s))"
proof (cases op)
  case (LoadInventory rows)
  with l show ?thesis
    by (auto simp: load_inventory_def list_all_iff)
next
  case (AddToConveyor pkg)
  with a show ?thesis by (simp add: add_to_conveyor_def)
next
  case RunConveyor
  with a show ?thesis by (simp add: bins_run_conveyor)
next
  case (LoadTruck pkg)
  with a show ?thesis by (simp add: load_truck_def log_action_def)
next
  case UndoLastLoad
  with a show ?thesis by (simp add: undo_last_load_def log_action_def Let_def)
next
  case (OptimizeTruckSpace packages max_cap)
  with a show ?thesis by simp
next
  case (OccupySpace k amount)
  show ?thesis
  proof (cases "k < length (bins s)")
    case True
    with a have "within_capacity (bins s ! k)" by (simp add: list_all_length)
    with OccupySpace True a show ?thesis
      by (simp add: list_all_update within_capacity_occupy_space)
  next
    case False
    with OccupySpace a show ?thesis by simp
  qed
qed

lemma bins_fold_perform:
  "list_all within_capacity (bins s) \<Longrightarrow> list_all loads_within_capacity ops \<Longrightarrow>
   list_all within_capacity (bins (fold perform ops s))"
  by (induction ops arbitrary: s) (simp_all add: bins_perform)

text \<open>
  Claim C6. When every bin satisfies \<open>0 \<le> used_space \<le> capacity\<close>, initially and in the
  rows every later \<open>load_inventory\<close> reads, then after every sequence of operations of
  the system every bin satisfies \<open>used_space \<le> capacity\<close>.
\<close>

theorem usage_never_exceeds_capacity:
  assumes "\<forall>b\<in>set (bins self). 0 \<le> used_space b \<and> used_space b \<le> capacity b"
    and "\<forall>op\<in>set ops. loads_within_capacity op"
  shows "\<forall>b\<in>set (bins (fold perform ops self)). used_space b \<le> capacity b"
proof -
  have "list_all within_capacity (bins self)"
    using assms(1) by (simp add: list_all_iff within_capacity_def)
  moreover have "list_all loads_within_capacity ops"
    using assms(2) by (simp add: list_all_iff)
  ultimately have "list_all within_capacity (bins (fold perform ops self))"
    by (rule bins_fold_perform)
  then show ?thesis by (simp add: list_all_iff within_capacity_def)
qed


text \<open>
  The witness of C6: load the seeded bins, store a package of size 45, then call
  \<open>occupy_space\<close> with 30 on the first bin (it raises) and on the second.
\<close>

theorem usage_never_exceeds_capacity_witness:
  "list_all (\<lambda>b. used_space b \<le> capacity b)
     (bins (fold perform
        [LoadInventory seed_rows, AddToConveyor (Package ''PKG_SMALL'' 45 ''NY''), RunConveyor,
         OccupySpace 0 30, OccupySpace 1 30]
        WarehouseController)) \<and>
   map used_space (bins (fold perform
        [LoadInventory seed_rows, AddToConveyor (Package ''PKG_SMALL'' 45 ''NY''), RunConveyor,
         OccupySpace 0 30, OccupySpace 1 30]
        WarehouseController)) = [45, 30, 0, 0, 0]"
proof -
  let ?ops = "[LoadInventory seed_rows, AddToConveyor (Package ''PKG_SMALL'' 45 ''NY''),
         RunConveyor, OccupySpace 0 30, OccupySpace 1 30]"
  have 1: "\<forall>b\<in>set (bins WarehouseController). 0 \<le> used_space b \<and> used_space b \<le> capacity b"
    by (simp add: WarehouseController_def)
  have 2: "\<forall>op\<in>set ?ops. loads_within_capacity op"
    by (simp add: seed_rows_def bin_of_row_def StorageBin_def within_capacity_def)
  have 3: "map used_space (bins (fold perform ?ops WarehouseController)) = [45, 30, 0, 0, 0]"
    by (simp add: run_conveyor_def conveyor_loop.simps store_package_def try_store_def
      find_bin_binary_search_def find_loop.simps list_position_def available_space_def
      occupy_space_def print_def log_action_def update_bin_db_def StorageBin_def Package_def
      WarehouseController_def load_inventory_def sort_bins_def seed_rows_def bin_of_row_def
      bin_lt_def add_to_conveyor_def)
  from usage_never_exceeds_capacity[OF 1 2] 3 show ?thesis
    by (simp add: list_all_iff)
qed



section \<open>The truck load optimizer\<close>



lemma total_size_simps [simp]:
  "total_size [] = 0" "total_size (p # ps) = size_pkg p + total_size ps"
  "total_size (ps @ qs) = total_size ps + total_size qs"
  by (simp_all add: total_size_def)















lemma current_combo_record_best [simp]: "current_combo (record_best cs s) = current_combo s"
  by (simp add: record_best_def)































text \<open>
  With a negative size the search misses the optimum: it refuses the package of size 10
  before it sees the package of size \<open>-5\<close>.
\<close>

lemma optimize_truck_space_negative_size:
  "optimize_truck_space [Package ''BOX_A'' 10 ''NY'', Package ''REFUND'' (- 5) ''CA''] 5 = Inr [] \<and>
   total_size [Package ''BOX_A'' 10 ''NY'', Package ''REFUND'' (- 5) ''CA''] = 5"
  by (simp add: optimize_truck_space_def Package_def solve.simps)




end
